theory Spec2Isabelle
  imports Main "HOL-Library.AList"
begin

section \<open>Settings documents\<close>

text \<open>
  The course settings are the content of \<^verbatim>\<open>course.yaml\<close>: a Python \<^verbatim>\<open>dict\<close> from string
  keys to scalars, lists and further dicts. A dict is modelled as an association list
  that is read with \<open>map_of\<close>, shrunk with \<open>AList.delete\<close> and rebound with
  \<open>AList.update\<close>; none of the modelled functions iterates over a dict, so the order of
  the list is never observed. Floating point scalars are left out: every modelled
  operation only asks whether a value is a dict. The document is a tree: no dict object
  is bound under two keys at once, so an in-place deletion inside a nested dict is the
  rebinding of its key, level by level, up to the root.
\<close>

datatype val =
    VNone
  | VBool bool
  | VInt int
  | VStr string
  | VList "val list"
  | VDict "(string \<times> val) list"

type_synonym dict = "(string \<times> val) list"

datatype error = ValueError | TypeError | AttributeError | AssertionError

text \<open>\<^verbatim>\<open>type(v) == dict\<close>\<close>

fun is_dict :: "val \<Rightarrow> bool" where
  "is_dict (VDict d) = True"
| "is_dict v = False"

text \<open>Python's truth value, as \<^verbatim>\<open>if not x\<close> tests it.\<close>

fun truthy :: "val \<Rightarrow> bool" where
  "truthy VNone = False"
| "truthy (VBool b) = b"
| "truthy (VInt i) = (i \<noteq> 0)"
| "truthy (VStr s) = (s \<noteq> [])"
| "truthy (VList xs) = (xs \<noteq> [])"
| "truthy (VDict d) = (d \<noteq> [])"

section \<open>Strings\<close>

text \<open>
  \<^verbatim>\<open>s.split(sep)\<close> with a separator string: the pieces between the leftmost,
  non-overlapping occurrences of \<open>sep\<close>; an empty separator raises \<^verbatim>\<open>ValueError\<close>.
  \<open>split_from sep acc s\<close> scans \<open>s\<close> with the piece read so far in \<open>acc\<close>.
\<close>

fun split_from :: "string \<Rightarrow> string \<Rightarrow> string \<Rightarrow> string list" where
  "split_from sep acc [] = [acc]"
| "split_from sep acc (c # cs) =
     (if sep \<noteq> [] \<and> take (length sep) (c # cs) = sep
      then acc # split_from sep [] (drop (length sep) (c # cs))
      else split_from sep (acc @ [c]) cs)"

definition split :: "string \<Rightarrow> string \<Rightarrow> error + string list" where
  "split sep s = (if sep = [] then Inl ValueError else Inr (split_from sep [] s))"

text \<open>\<^verbatim>\<open>p in s\<close> for two strings: \<open>p\<close> occurs in \<open>s\<close> as a contiguous piece.\<close>

fun str_contains :: "string \<Rightarrow> string \<Rightarrow> bool" where
  "str_contains p [] = (p = [])"
| "str_contains p (c # cs) = (take (length p) (c # cs) = p \<or> str_contains p cs)"

text \<open>
  \<^verbatim>\<open>element in x\<close> for a string \<open>element\<close>: key membership in a dict, substring test
  in a string, item membership in a list, \<^verbatim>\<open>TypeError\<close> on everything else.
\<close>

fun py_in :: "string \<Rightarrow> val \<Rightarrow> error + bool" where
  "py_in e (VDict d) = Inr (map_of d e \<noteq> None)"
| "py_in e (VStr s) = Inr (str_contains e s)"
| "py_in e (VList xs) = Inr (VStr e \<in> set xs)"
| "py_in e v = Inl TypeError"

section \<open>The path pruner\<close>

text \<open>
  \<^verbatim>\<open>HtmlHookRESTHandler._process_delete_internal\<close>, the loop over the segments of the
  key with \<^verbatim>\<open>pruned_dict\<close> a dict. A segment that is absent is skipped; a segment bound to a
  dict moves \<^verbatim>\<open>pruned_dict\<close> into it; a segment bound to anything else is deleted. The
  loop has no \<^verbatim>\<open>break\<close>, so after a skip or a deletion the next segment is looked up in
  the same dict. The result is the dict the loop started from, after the deletions.
\<close>

fun prune_loop :: "dict \<Rightarrow> string list \<Rightarrow> dict" where
  "prune_loop pruned_dict [] = pruned_dict"
| "prune_loop pruned_dict (element # rest) =
     (case map_of pruned_dict element of
        None \<Rightarrow> prune_loop pruned_dict rest
      | Some (VDict sub) \<Rightarrow>
          AList.update element (VDict (prune_loop sub rest)) pruned_dict
      | Some v \<Rightarrow> prune_loop (AList.delete element pruned_dict) rest)"

text \<open>
  The same loop when \<^verbatim>\<open>course_dict\<close> is not a dict (the value found under the reserved
  key may be anything): \<^verbatim>\<open>pruned_dict\<close> never changes, and the first segment that is
  \<^verbatim>\<open>in\<close> it is used as an index, which raises \<^verbatim>\<open>TypeError\<close> on a string and on a list.
\<close>

fun scan_loop :: "val \<Rightarrow> string list \<Rightarrow> error + val" where
  "scan_loop x [] = Inr x"
| "scan_loop x (element # rest) =
     (case py_in element x of
        Inl err \<Rightarrow> Inl err
      | Inr True \<Rightarrow> Inl TypeError
      | Inr False \<Rightarrow> scan_loop x rest)"

definition process_delete_internal :: "string \<Rightarrow> val \<Rightarrow> string \<Rightarrow> error + val" where
  "process_delete_internal sep course_dict key =
     (case split sep key of
        Inl err \<Rightarrow> Inl err
      | Inr segments \<Rightarrow>
          (case course_dict of
             VDict d \<Rightarrow> Inr (VDict (prune_loop d segments))
           | other \<Rightarrow> scan_loop other segments))"

section \<open>Requests, responses and the path builder\<close>

text \<open>
  \<^verbatim>\<open>dict.get(name)\<close> on the parsed request: \<^verbatim>\<open>None\<close> for a missing key, and
  \<^verbatim>\<open>AttributeError\<close> when the parsed JSON is not an object.
\<close>

fun py_get :: "val \<Rightarrow> string \<Rightarrow> error + val" where
  "py_get (VDict d) name = Inr (case map_of d name of None \<Rightarrow> VNone | Some v \<Rightarrow> v)"
| "py_get v name = Inl AttributeError"

type_synonym response = "nat \<times> string"

text \<open>
  What a request leaves behind: the JSON envelopes written to the response, in order
  (status and message), and the persisted settings document.
\<close>

record hstate =
  responses :: "response list"
  document :: dict

definition send_json_response :: "nat \<Rightarrow> string \<Rightarrow> hstate \<Rightarrow> hstate" where
  "send_json_response status message s =
     s\<lparr>responses := responses s @ [(status, message)]\<rparr>"

text \<open>
  The loop at the end of \<^verbatim>\<open>HtmlHookRESTHandler.process_put\<close>: it walks the segments of
  the key from the last to the first and wraps the dict built so far, which starts as
  the hook content, in a new dict under each segment.
\<close>

definition build_path :: "string list \<Rightarrow> val \<Rightarrow> val" where
  "build_path segments hook_content =
     fold (\<lambda>element course_dict. VDict [(element, course_dict)]) (rev segments) hook_content"

text \<open>
  \<^verbatim>\<open>HtmlHookRESTHandler.process_put\<close>. The separator and the reserved key are the
  constants \<^verbatim>\<open>HtmlHooks.SEPARATOR\<close> and \<^verbatim>\<open>HtmlHooks.HTML_HOOKS\<close> of another module, and
  \<open>convert\<close> is the hook registry's \<^verbatim>\<open>convert_json_to_entity\<close>, which fills
  \<^verbatim>\<open>request_data\<close> from the payload; all three are parameters. The result is the
  returned dict (\<open>None\<close> for Python's \<^verbatim>\<open>None\<close>) and the state with the responses sent.
\<close>

definition hook_process_put ::
  "string \<Rightarrow> string \<Rightarrow> (val \<Rightarrow> error + dict) \<Rightarrow> val \<Rightarrow> val \<Rightarrow> hstate
     \<Rightarrow> error + (dict option \<times> hstate)" where
  \<open>hook_process_put sep hooks convert request payload s =
     (case convert payload of
        Inl err \<Rightarrow> Inl err
      | Inr request_data \<Rightarrow>
          (case map_of request_data ''hook_content'' of
             None \<Rightarrow>
               Inr (None,
                 send_json_response 400 ''Payload missing "hook_content" parameter.'' s)
           | Some hook_content \<Rightarrow>
               (case py_get request ''key'' of
                  Inl err \<Rightarrow> Inl err
                | Inr key \<Rightarrow>
                    if \<not> truthy key
                    then Inr (None,
                      send_json_response 400 ''Blank or missing "key" parameter.'' s)
                    else
                      (case key of
                         VStr k \<Rightarrow>
                           (case split sep k of
                              Inl err \<Rightarrow> Inl err
                            | Inr segments \<Rightarrow>
                                Inr (Some [(hooks, build_path segments hook_content)], s))
                       | _ \<Rightarrow> Inl AttributeError))))\<close>

text \<open>
  The nesting as the specification words it: the innermost dict binds the last segment
  to the leaf, and each earlier segment wraps the result; no segment gives the leaf.
\<close>

fun right_nested :: "string list \<Rightarrow> val \<Rightarrow> val" where
  "right_nested [] leaf = leaf"
| "right_nested (segment # rest) leaf = VDict [(segment, right_nested rest leaf)]"

section \<open>Hook deletion\<close>

text \<open>
  \<^verbatim>\<open>HtmlHookRESTHandler.process_delete\<close> on the course dict and the key of the request.
  The first call prunes the value under the reserved key (a fresh empty dict when the key
  is missing, which leaves the course dict as it is); its deletions happen inside the
  course dict, so the value is rebound. The second call prunes from the top level.
\<close>

definition hook_process_delete :: "string \<Rightarrow> string \<Rightarrow> dict \<Rightarrow> string \<Rightarrow> error + val" where
  "hook_process_delete sep hooks course_dict key =
     (case process_delete_internal sep
             (case map_of course_dict hooks of None \<Rightarrow> VDict [] | Some v \<Rightarrow> v) key of
        Inl err \<Rightarrow> Inl err
      | Inr pruned_hooks \<Rightarrow>
          process_delete_internal sep
            (VDict (case map_of course_dict hooks of
                      None \<Rightarrow> course_dict
                    | Some v \<Rightarrow> AList.update hooks pruned_hooks course_dict))
            key)"

text \<open>
  \<^verbatim>\<open>HtmlHookRESTHandler.postprocess_put\<close>: the merged settings are pruned from the top
  level with the key of the request.
\<close>

definition hook_postprocess_put :: "string \<Rightarrow> val \<Rightarrow> val \<Rightarrow> error + val" where
  "hook_postprocess_put sep course_settings request =
     (case py_get request ''key'' of
        Inl err \<Rightarrow> Inl err
      | Inr key \<Rightarrow>
          if \<not> truthy key then Inr course_settings
          else (case key of
                  VStr k \<Rightarrow> process_delete_internal sep course_settings k
                | _ \<Rightarrow> Inl AttributeError))"

section \<open>Course settings: the forum links\<close>

text \<open>\<^verbatim>\<open>get_group_id\<close>, \<^verbatim>\<open>get_groups_web_url\<close>, \<^verbatim>\<open>get_groups_embed_url\<close>.\<close>

definition get_group_id :: "val \<Rightarrow> error + string option" where
  "get_group_id email =
     (if \<not> truthy email then Inr None
      else (case py_in ''@googlegroups.com'' email of
              Inl err \<Rightarrow> Inl err
            | Inr False \<Rightarrow> Inr None
            | Inr True \<Rightarrow>
                (case email of
                   VStr s \<Rightarrow>
                     (case split_from ''@'' [] s of
                        [] \<Rightarrow> Inl AttributeError
                      | first # _ \<Rightarrow> Inr (Some first))
                 | _ \<Rightarrow> Inl AttributeError)))"

definition get_groups_web_url :: "val \<Rightarrow> error + string option" where
  "get_groups_web_url email =
     (case get_group_id email of
        Inl err \<Rightarrow> Inl err
      | Inr None \<Rightarrow> Inr None
      | Inr (Some group_id) \<Rightarrow>
          if group_id = [] then Inr None
          else Inr (Some (''https://groups.google.com/group/'' @ group_id)))"

definition get_groups_embed_url :: "val \<Rightarrow> error + string option" where
  "get_groups_embed_url email =
     (case get_group_id email of
        Inl err \<Rightarrow> Inl err
      | Inr None \<Rightarrow> Inr None
      | Inr (Some group_id) \<Rightarrow>
          if group_id = [] then Inr None
          else Inr (Some (''https://groups.google.com/forum/embed/?place=forum/'' @ group_id)))"

text \<open>
  \<^verbatim>\<open>_process_course_data\<close>: the forum links are derived from the forum e-mail address
  and stored beside it.
\<close>

definition process_course_data :: "val \<Rightarrow> error + val" where
  "process_course_data course_data =
     (case py_in ''forum_email'' course_data of
        Inl err \<Rightarrow> Inl err
      | Inr False \<Rightarrow> Inr course_data
      | Inr True \<Rightarrow>
          (case course_data of
             VDict d \<Rightarrow>
               (case map_of d ''forum_email'' of
                  None \<Rightarrow> Inr course_data
                | Some forum_email \<Rightarrow>
                    (case get_groups_web_url forum_email of
                       Inl err \<Rightarrow> Inl err
                     | Inr web_url \<Rightarrow>
                         (case get_groups_embed_url forum_email of
                            Inl err \<Rightarrow> Inl err
                          | Inr embed_url \<Rightarrow>
                              Inr (VDict
                                ((case embed_url of
                                    None \<Rightarrow> (\<lambda>x. x)
                                  | Some url \<Rightarrow> AList.update ''forum_embed_url'' (VStr url))
                                 ((case web_url of
                                     None \<Rightarrow> (\<lambda>x. x)
                                   | Some url \<Rightarrow> AList.update ''forum_url'' (VStr url)) d))))))
           | _ \<Rightarrow> Inl TypeError))"

text \<open>\<^verbatim>\<open>'\n'.join(errors)\<close>\<close>

fun join :: "string \<Rightarrow> string list \<Rightarrow> string" where
  "join sep [] = []"
| "join sep [x] = x"
| "join sep (x # y # ys) = x @ sep @ join sep (y # ys)"

text \<open>
  \<^verbatim>\<open>CourseSettingsRESTHandler.process_put\<close>. The schema's \<^verbatim>\<open>convert_json_to_entity\<close>
  and \<^verbatim>\<open>validate\<close> are parameters (\<open>validate\<close> gives the list of errors), and so is
  \<^verbatim>\<open>_process_extra_locales\<close>, which only talks to the label store: \<open>extra\<close> gives the
  exception it raises, if any.
\<close>

definition settings_process_put ::
  "(val \<Rightarrow> error + dict) \<Rightarrow> (dict \<Rightarrow> string list) \<Rightarrow> (val \<Rightarrow> error option)
     \<Rightarrow> val \<Rightarrow> val \<Rightarrow> hstate \<Rightarrow> error + (dict option \<times> hstate)" where
  "settings_process_put convert validate extra request payload s =
     (case convert payload of
        Inl err \<Rightarrow> Inl err
      | Inr request_data \<Rightarrow>
          if validate request_data \<noteq> []
          then Inr (None,
            send_json_response 400
              (''Invalid data: '' @ [CHR 0x0A] @ join [CHR 0x0A] (validate request_data)) s)
          else
            (case (case map_of request_data ''extra_locales'' of
                     None \<Rightarrow> None
                   | Some extra_locales \<Rightarrow> extra extra_locales) of
               Some err \<Rightarrow> Inl err
             | None \<Rightarrow>
                 (case map_of request_data ''course'' of
                    None \<Rightarrow> Inr (Some request_data, s)
                  | Some course_data \<Rightarrow>
                      (case process_course_data course_data of
                         Inl err \<Rightarrow> Inl err
                       | Inr course_data' \<Rightarrow>
                           Inr (Some (AList.update ''course'' course_data' request_data), s)))))"

section \<open>The REST handlers\<close>

datatype handler = CourseSettings | HtmlHook

fun XSRF_ACTION :: "handler \<Rightarrow> string" where
  "XSRF_ACTION CourseSettings = ''basic-course-settings-put''"
| "XSRF_ACTION HtmlHook = ''html-hook-put''"

fun is_deletion_allowed :: "handler \<Rightarrow> bool" where
  "is_deletion_allowed CourseSettings = False"
| "is_deletion_allowed HtmlHook = True"

text \<open>
  \<^verbatim>\<open>assert_xsrf_token_or_fail\<close> belongs to the base handler of another module: it either
  returns true, or answers the request itself and returns false.
\<close>

datatype token_check = TokenOk | TokenFail "response list"

text \<open>
  What a request meets outside this module: the two constants, whether the file system
  of the course is editable (\<^verbatim>\<open>app_context.is_editable_fs()\<close>), the query parameters,
  the JSON parser \<^verbatim>\<open>transforms.loads\<close> (\<open>Inl ValueError\<close> is the exception the handler
  catches), the token check, the edit permission, the schema functions, the merge
  \<^verbatim>\<open>courses.deep_dict_merge\<close>, the dict \<^verbatim>\<open>get_course_dict\<close> returns, and
  \<^verbatim>\<open>save_settings\<close>, which takes the settings and the persisted document and gives its
  verdict and the document it leaves.
\<close>

record env =
  SEPARATOR :: string
  HTML_HOOKS :: string
  is_editable_fs :: bool
  params :: "(string \<times> string) list"
  loads :: "val \<Rightarrow> error + val"
  assert_xsrf_token_or_fail :: "val \<Rightarrow> string \<Rightarrow> token_check"
  can_edit :: bool
  convert_json_to_entity :: "handler \<Rightarrow> val \<Rightarrow> error + dict"
  validate :: "dict \<Rightarrow> string list"
  process_extra_locales :: "val \<Rightarrow> error option"
  deep_dict_merge :: "dict \<Rightarrow> dict \<Rightarrow> dict"
  get_course_dict :: dict
  save_settings :: "val \<Rightarrow> dict \<Rightarrow> bool \<times> dict"

text \<open>\<^verbatim>\<open>self.request.get(name)\<close>: the query parameter, the empty string when it is missing.\<close>

definition request_get :: "env \<Rightarrow> string \<Rightarrow> string" where
  "request_get e name = (case map_of (params e) name of None \<Rightarrow> [] | Some v \<Rightarrow> v)"

fun process_put :: "handler \<Rightarrow> env \<Rightarrow> val \<Rightarrow> val \<Rightarrow> hstate \<Rightarrow> error + (dict option \<times> hstate)" where
  "process_put CourseSettings e request payload s =
     settings_process_put (convert_json_to_entity e CourseSettings) (validate e)
       (process_extra_locales e) request payload s"
| "process_put HtmlHook e request payload s =
     hook_process_put (SEPARATOR e) (HTML_HOOKS e) (convert_json_to_entity e HtmlHook)
       request payload s"

fun postprocess_put :: "handler \<Rightarrow> env \<Rightarrow> val \<Rightarrow> val \<Rightarrow> error + val" where
  "postprocess_put CourseSettings e course_settings request = Inr course_settings"
| "postprocess_put HtmlHook e course_settings request =
     hook_postprocess_put (SEPARATOR e) course_settings request"

text \<open>
  \<^verbatim>\<open>process_delete\<close> exists on the hook handler only; on the other handler the call
  would raise \<^verbatim>\<open>AttributeError\<close>.
\<close>

fun process_delete :: "handler \<Rightarrow> env \<Rightarrow> error + val" where
  "process_delete CourseSettings e = Inl AttributeError"
| "process_delete HtmlHook e =
     hook_process_delete (SEPARATOR e) (HTML_HOOKS e) (get_course_dict e) (request_get e ''key'')"

text \<open>
  \<^verbatim>\<open>CourseYamlRESTHandler.put\<close>. Its first statement asserts that the file system is
  editable; on a read-only course the \<^verbatim>\<open>AssertionError\<close> leaves the handler before any
  response. The schema redaction between \<^verbatim>\<open>process_put\<close> and the
  merge changes the schema and the payload only and is left out. When \<^verbatim>\<open>save_settings\<close>
  refuses, the 412 is followed by the 200, as in the source.
\<close>

definition put :: "handler \<Rightarrow> env \<Rightarrow> hstate \<Rightarrow> error + hstate" where
  \<open>put h e s =
     (if \<not> is_editable_fs e then Inl AssertionError
      else if request_get e ''request'' = []
      then Inr (send_json_response 400 ''Missing "request" parameter.'' s)
      else
        (case loads e (VStr (request_get e ''request'')) of
           Inl ValueError \<Rightarrow> Inr (send_json_response 400 ''Malformed "request" parameter.'' s)
         | Inl err \<Rightarrow> Inl err
         | Inr request \<Rightarrow>
        (case py_get request ''key'' of
           Inl err \<Rightarrow> Inl err
         | Inr key \<Rightarrow>
        if \<not> truthy key
        then Inr (send_json_response 400 ''Request missing "key" parameter.'' s)
        else
        (case py_get request ''payload'' of
           Inl err \<Rightarrow> Inl err
         | Inr payload_param \<Rightarrow>
        if \<not> truthy payload_param
        then Inr (send_json_response 400 ''Request missing "payload" parameter.'' s)
        else
        (case loads e payload_param of
           Inl ValueError \<Rightarrow> Inr (send_json_response 400 ''Malformed "payload" parameter.'' s)
         | Inl err \<Rightarrow> Inl err
         | Inr payload \<Rightarrow>
        (case assert_xsrf_token_or_fail e request (XSRF_ACTION h) of
           TokenFail sent \<Rightarrow> Inr (s\<lparr>responses := responses s @ sent\<rparr>)
         | TokenOk \<Rightarrow>
        if \<not> can_edit e
        then Inr (send_json_response 401 ''Access denied.'' s)
        else
        (case process_put h e request payload s of
           Inl err \<Rightarrow> Inl err
         | Inr (None, s1) \<Rightarrow> Inr s1
         | Inr (Some request_data, s1) \<Rightarrow>
        if request_data = [] then Inr s1
        else
        (case postprocess_put h e
                (VDict (deep_dict_merge e request_data (get_course_dict e))) request of
           Inl err \<Rightarrow> Inl err
         | Inr course_settings \<Rightarrow>
             (case save_settings e course_settings (document s1) of
                (saved, doc) \<Rightarrow>
                  Inr (send_json_response 200 ''Saved.''
                    ((if saved then (\<lambda>x. x) else send_json_response 412 ''Validation error.'')
                       (s1\<lparr>document := doc\<rparr>))))))))))))\<close>

text \<open>
  \<^verbatim>\<open>CourseYamlRESTHandler.delete\<close>; the token check is handed \<^verbatim>\<open>self.request\<close>, the
  query parameters.
\<close>

definition query_dict :: "env \<Rightarrow> val" where
  "query_dict e = VDict (map (\<lambda>(name, v). (name, VStr v)) (params e))"

definition delete :: "handler \<Rightarrow> env \<Rightarrow> hstate \<Rightarrow> error + hstate" where
  "delete h e s =
     (case assert_xsrf_token_or_fail e (query_dict e) (XSRF_ACTION h) of
        TokenFail sent \<Rightarrow> Inr (s\<lparr>responses := responses s @ sent\<rparr>)
      | TokenOk \<Rightarrow>
          if \<not> can_edit e \<or> \<not> is_deletion_allowed h
          then Inr (send_json_response 401 ''Access denied.'' s)
          else
            (case process_delete h e of
               Inl err \<Rightarrow> Inl err
             | Inr entity \<Rightarrow>
                 (case save_settings e entity (document s) of
                    (saved, doc) \<Rightarrow>
                      Inr ((if saved then send_json_response 200 ''Deleted.'' else (\<lambda>x. x))
                             (s\<lparr>document := doc\<rparr>)))))"

section \<open>Notions the properties are stated with\<close>

text \<open>Every segment of the path, the last one too, resolves to a nested dict.\<close>

fun all_mappings :: "dict \<Rightarrow> string list \<Rightarrow> bool" where
  "all_mappings d [] = True"
| "all_mappings d (element # rest) =
     (case map_of d element of
        Some (VDict sub) \<Rightarrow> all_mappings sub rest
      | _ \<Rightarrow> False)"

text \<open>
  The value a path of keys leads to: the document itself for the empty path, nothing when
  a key is missing or a value on the way is not a dict.
\<close>

fun lookup_path :: "dict \<Rightarrow> string list \<Rightarrow> val option" where
  "lookup_path d [] = Some (VDict d)"
| "lookup_path d (k # ks) =
     (case map_of d k of
        None \<Rightarrow> None
      | Some (VDict sub) \<Rightarrow> lookup_path sub ks
      | Some v \<Rightarrow> (if ks = [] then Some v else None))"





text \<open>
  The request gets through every check of \<^verbatim>\<open>put\<close> that comes before \<^verbatim>\<open>process_put\<close>:
  the file system is editable, the request parameter is there and parses to \<open>request\<close>, its key and its payload are
  there, the payload parses to \<open>payload\<close>, the token is good and the user may edit.
\<close>

definition passes_checks :: "handler \<Rightarrow> env \<Rightarrow> val \<Rightarrow> val \<Rightarrow> bool" where
  "passes_checks h e request payload =
     (is_editable_fs e
      \<and> request_get e ''request'' \<noteq> []
      \<and> loads e (VStr (request_get e ''request'')) = Inr request
      \<and> (case py_get request ''key'' of Inl err \<Rightarrow> False | Inr key \<Rightarrow> truthy key)
      \<and> (case py_get request ''payload'' of
            Inl err \<Rightarrow> False
          | Inr payload_param \<Rightarrow> truthy payload_param \<and> loads e payload_param = Inr payload)
      \<and> assert_xsrf_token_or_fail e request (XSRF_ACTION h) = TokenOk
      \<and> can_edit e)"

section \<open>An example environment\<close>

text \<open>
  A request with the key \<^verbatim>\<open>a.b\<close> and an empty payload object, on an editable course,
  from a user who may edit and holds a good token, against a schema that reports one
  error.
\<close>

definition example_env :: env where
  "example_env =
     \<lparr>SEPARATOR = ''.'',
      HTML_HOOKS = ''html_hooks'',
      is_editable_fs = True,
      params = [(''request'', ''r''), (''key'', ''a.b'')],
      loads = (\<lambda>v. if v = VStr ''p'' then Inr (VDict [])
                   else Inr (VDict [(''key'', VStr ''a.b''), (''payload'', VStr ''p'')])),
      assert_xsrf_token_or_fail = (\<lambda>token_dict action. TokenOk),
      can_edit = True,
      convert_json_to_entity =
        (\<lambda>h payload. case payload of VDict d \<Rightarrow> Inr d | _ \<Rightarrow> Inl TypeError),
      validate = (\<lambda>request_data. [''title is required'']),
      process_extra_locales = (\<lambda>extra_locales. None),
      deep_dict_merge = (\<lambda>real_values default_values. real_values),
      get_course_dict = [(''course'', VDict [(''title'', VStr ''T'')])],
      save_settings = (\<lambda>settings doc. case settings of VDict d \<Rightarrow> (True, d) | _ \<Rightarrow> (False, doc))\<rparr>"

definition example_state :: hstate where
  "example_state = \<lparr>responses = [], document = [(''course'', VDict [(''title'', VStr ''T'')])]\<rparr>"

definition example_convert :: "val \<Rightarrow> error + dict" where
  "example_convert payload = (case payload of VDict d \<Rightarrow> Inr d | _ \<Rightarrow> Inl TypeError)"

section \<open>Lemmas: the pruner, level by level\<close>


lemma lookup_path_update_other:
  "k \<noteq> e \<Longrightarrow> lookup_path (AList.update e v D) (k # ks) = lookup_path D (k # ks)"
  by (simp add: update_conv')

lemma lookup_path_update_same:
  "lookup_path (AList.update e (VDict sub) D) (e # ks) = lookup_path sub ks"
  by (simp add: update_conv')

lemma lookup_path_delete_other:
  "k \<noteq> e \<Longrightarrow> lookup_path (AList.delete e D) (k # ks) = lookup_path D (k # ks)"
  by simp


lemma prune_loop_all_mappings:
  "all_mappings d segs \<Longrightarrow> prune_loop d segs = d"
proof (induction segs arbitrary: d)
  case Nil
  show ?case by simp
next
  case (Cons element rest)
  from Cons.prems obtain sub where
    bound: "map_of d element = Some (VDict sub)" and deeper: "all_mappings sub rest"
    by (auto split: option.splits val.splits)
  from Cons.IH [OF deeper] have "prune_loop sub rest = sub" .
  with bound show ?case by (simp add: update_triv)
qed

lemma lookup_path_dict_kept:
  "lookup_path D Q = Some (VDict m) \<Longrightarrow>
     \<exists>pre R. P = pre @ R \<and> lookup_path (prune_loop D P) Q = Some (VDict (prune_loop m R))"
proof (induction P arbitrary: D Q m)
  case Nil
  then show ?case by simp
next
  case (Cons e es)
  show ?case
  proof (cases Q)
    case Nil
    with Cons.prems have "m = D" by simp
    with Nil have "e # es = [] @ (e # es) \<and>
      lookup_path (prune_loop D (e # es)) Q = Some (VDict (prune_loop m (e # es)))"
      by simp
    then show ?thesis by blast
  next
    case (Cons k ks)
    note Q = this
    show ?thesis
    proof (cases "map_of D e")
      case None
      from Cons.IH [OF Cons.prems] obtain pre R where
        "es = pre @ R" "lookup_path (prune_loop D es) Q = Some (VDict (prune_loop m R))"
        by blast
      with None have "e # es = (e # pre) @ R \<and>
        lookup_path (prune_loop D (e # es)) Q = Some (VDict (prune_loop m R))"
        by simp
      then show ?thesis by blast
    next
      case (Some v)
      show ?thesis
      proof (cases "is_dict v")
        case True
        then obtain sub where v: "v = VDict sub" by (cases v) auto
        have step: "prune_loop D (e # es) = AList.update e (VDict (prune_loop sub es)) D"
          using Some v by simp
        show ?thesis
        proof (cases "k = e")
          case True
          with Cons.prems Q Some v have "lookup_path sub ks = Some (VDict m)" by simp
          from Cons.IH [OF this] obtain pre R where
            "es = pre @ R" "lookup_path (prune_loop sub es) ks = Some (VDict (prune_loop m R))"
            by blast
          with True Q step have "e # es = (e # pre) @ R \<and>
            lookup_path (prune_loop D (e # es)) Q = Some (VDict (prune_loop m R))"
            by (simp add: lookup_path_update_same del: lookup_path.simps prune_loop.simps)
          then show ?thesis by blast
        next
          case False
          with Cons.prems Q step have "e # es = (e # es) @ [] \<and>
            lookup_path (prune_loop D (e # es)) Q = Some (VDict (prune_loop m []))"
            by (simp add: lookup_path_update_other del: lookup_path.simps)
          then show ?thesis by blast
        qed
      next
        case False
        have step: "prune_loop D (e # es) = prune_loop (AList.delete e D) es"
          using Some False by (cases v) auto
        have "k \<noteq> e"
          using Cons.prems Q Some False by (cases v) (auto split: if_splits)
        with Cons.prems Q have "lookup_path (AList.delete e D) Q = Some (VDict m)"
          by (simp add: lookup_path_delete_other del: lookup_path.simps)
        from Cons.IH [OF this] obtain pre R where
          "es = pre @ R"
          "lookup_path (prune_loop (AList.delete e D) es) Q = Some (VDict (prune_loop m R))"
          by blast
        with step have "e # es = (e # pre) @ R \<and>
          lookup_path (prune_loop D (e # es)) Q = Some (VDict (prune_loop m R))"
          by simp
        then show ?thesis by blast
      qed
    qed
  qed
qed


lemma removed_not_dict:
  "lookup_path D Q = Some v \<Longrightarrow> lookup_path (prune_loop D P) Q = None \<Longrightarrow> \<not> is_dict v"
proof
  assume before: "lookup_path D Q = Some v" and after: "lookup_path (prune_loop D P) Q = None"
    and "is_dict v"
  then obtain m where "v = VDict m" by (cases v) auto
  with before have "lookup_path D Q = Some (VDict m)" by simp
  from lookup_path_dict_kept [OF this, of P] after show False by auto
qed





section \<open>Lemmas: counting keys\<close>







section \<open>Lemmas: keys, paths and the builder\<close>

lemma build_path_right_nested: "build_path segs leaf = right_nested segs leaf"
  unfolding build_path_def by (induction segs) simp_all

lemma split_from_nonempty: "split_from sep acc s \<noteq> []"
  by (induction sep acc s rule: split_from.induct) auto

lemma prune_built_path:
  "\<not> is_dict V \<Longrightarrow>
     prune_loop [(seg, right_nested segs V)] (seg # segs)
       = (if segs = [] then [] else [(seg, right_nested (butlast segs) (VDict []))])"
proof (induction segs arbitrary: seg)
  case Nil
  then show ?case by (cases V) simp_all
next
  case (Cons t ts)
  from Cons.IH [OF Cons.prems, of t] show ?case by simp
qed

lemma split_Inr_nonempty: "split sep key = Inr P \<Longrightarrow> P \<noteq> []"
  by (auto simp: split_def split_from_nonempty split: if_splits)

lemma process_delete_internal_dict:
  "split sep key = Inr P \<Longrightarrow>
     process_delete_internal sep (VDict D) key = Inr (VDict (prune_loop D P))"
  by (simp add: process_delete_internal_def)


section \<open>Lemmas: the handlers\<close>

lemma put_rejected:
  "passes_checks h e request payload \<Longrightarrow> process_put h e request payload s = Inr (None, s1)
     \<Longrightarrow> put h e s = Inr s1"
  unfolding passes_checks_def put_def
  by (auto split: sum.splits)

lemma put_no_payload:
  assumes "is_editable_fs e"
    and "request_get e ''request'' \<noteq> []"
    and "loads e (VStr (request_get e ''request'')) = Inr (VDict request)"
    and "map_of request ''payload'' = None"
  shows "\<exists>message. put h e s = Inr (send_json_response 400 message s)"
  using assms unfolding put_def
  by (auto split: option.splits)

lemma hook_put_no_content:
  assumes "convert payload = Inr request_data"
    and "map_of request_data ''hook_content'' = None"
  shows \<open>hook_process_put sep hooks convert request payload s
         = Inr (None, send_json_response 400 ''Payload missing "hook_content" parameter.'' s)\<close>
  using assms unfolding hook_process_put_def by simp

lemma settings_put_invalid:
  assumes "convert payload = Inr request_data"
    and "check request_data \<noteq> []"
  shows "settings_process_put convert check extra request payload s
         = Inr (None, send_json_response 400
              (''Invalid data: '' @ [CHR 0x0A] @ join [CHR 0x0A] (check request_data)) s)"
  using assms unfolding settings_process_put_def by simp

lemma delete_settings:
  "delete CourseSettings e s =
     (case assert_xsrf_token_or_fail e (query_dict e) (XSRF_ACTION CourseSettings) of
        TokenFail sent \<Rightarrow> Inr (s\<lparr>responses := responses s @ sent\<rparr>)
      | TokenOk \<Rightarrow> Inr (s\<lparr>responses := responses s @ [(401, ''Access denied.'')]\<rparr>))"
  unfolding delete_def by (simp add: send_json_response_def split: token_check.splits)





section \<open>Building and pruning a path\<close>

text \<open>
  C1. For a key that splits into the segments \<open>P\<close> and a leaf that is not a
  mapping, building the nested path and then pruning the same path deletes the leaf key
  only: what is left is the nesting of all segments of \<open>P\<close> but the last around an
  empty mapping. The document is empty again exactly when \<open>P\<close> has one segment.
\<close>

theorem build_then_prune_leaves_shell:
  assumes "split sep key = Inr P" and "\<not> is_dict V"
  shows "process_delete_internal sep (build_path P V) key
           = Inr (right_nested (butlast P) (VDict []))
         \<and> (right_nested (butlast P) (VDict []) = VDict [] \<longleftrightarrow> length P = 1)"
proof -
  from split_Inr_nonempty [OF assms(1)] obtain seg segs where P: "P = seg # segs"
    by (cases P) auto
  have built: "build_path P V = VDict [(seg, right_nested segs V)]"
    by (simp add: build_path_right_nested P)
  have "process_delete_internal sep (build_path P V) key
          = Inr (VDict (prune_loop [(seg, right_nested segs V)] (seg # segs)))"
    using process_delete_internal_dict [OF assms(1)] built P by simp
  also have "\<dots> = Inr (right_nested (butlast P) (VDict []))"
    using prune_built_path [OF assms(2), of seg segs] P by simp
  finally have first: "process_delete_internal sep (build_path P V) key
           = Inr (right_nested (butlast P) (VDict []))" .
  have second: "right_nested (butlast P) (VDict []) = VDict [] \<longleftrightarrow> length P = 1"
    using P by simp
  from first second show ?thesis by blast
qed

theorem build_then_prune_leaves_shell_witness:
  "split ''.'' ''a.b'' = Inr [''a'', ''b''] \<and> \<not> is_dict (VStr ''x'')
   \<and> process_delete_internal ''.'' (build_path [''a'', ''b''] (VStr ''x'')) ''a.b''
       = Inr (VDict [(''a'', VDict [])])"
proof -
  have path: "split ''.'' ''a.b'' = Inr [''a'', ''b'']" by (simp add: split_def)
  have leaf: "\<not> is_dict (VStr ''x'')" by simp
  from build_then_prune_leaves_shell [OF path leaf] path leaf show ?thesis by simp
qed

text \<open>
  C1, for a path of three segments: the key \<^verbatim>\<open>a.b.c\<close> with the leaf
  \<^verbatim>\<open><p>hi</p>\<close> is built and pruned, and the mappings under \<^verbatim>\<open>a\<close> and \<^verbatim>\<open>b\<close> stay
  behind, so the document is not empty.
\<close>

theorem build_then_prune_counterexample:
  "split ''.'' ''a.b.c'' = Inr [''a'', ''b'', ''c'']
   \<and> build_path [''a'', ''b'', ''c''] (VStr ''<p>hi</p>'')
       = VDict [(''a'', VDict [(''b'', VDict [(''c'', VStr ''<p>hi</p>'')])])]
   \<and> process_delete_internal ''.''
        (VDict [(''a'', VDict [(''b'', VDict [(''c'', VStr ''<p>hi</p>'')])])]) ''a.b.c''
       = Inr (VDict [(''a'', VDict [(''b'', VDict [])])])
   \<and> process_delete_internal ''.''
        (VDict [(''a'', VDict [(''b'', VDict [(''c'', VStr ''<p>hi</p>'')])])]) ''a.b.c''
       \<noteq> Inr (VDict [])"
  by (simp add: split_def build_path_def process_delete_internal_def)

section \<open>What one call of the pruner removes\<close>







text \<open>
  C4. The pruner never deletes a key that is bound to a mapping. Every path that leads
  to a mapping before the call leads to that mapping after it, apart from what the rest
  of the loop deleted inside it; and a binding that is gone after the call was bound to
  a value that is not a mapping.
\<close>

theorem mappings_are_never_deleted:
  assumes "split sep key = Inr P"
  shows "process_delete_internal sep (VDict D) key = Inr (VDict (prune_loop D P))
         \<and> (\<forall>Q m. lookup_path D Q = Some (VDict m) \<longrightarrow>
               (\<exists>pre R. P = pre @ R
                  \<and> lookup_path (prune_loop D P) Q = Some (VDict (prune_loop m R))))
         \<and> (\<forall>Q v. lookup_path D Q = Some v \<and> lookup_path (prune_loop D P) Q = None
               \<longrightarrow> \<not> is_dict v)"
  using process_delete_internal_dict [OF assms] lookup_path_dict_kept removed_not_dict
  by blast

theorem mappings_are_never_deleted_witness:
  "split ''.'' ''h.b'' = Inr [''h'', ''b'']
   \<and> lookup_path [(''h'', VDict [(''b'', VInt 1), (''m'', VDict [(''z'', VNone)])])] [''h'']
       = Some (VDict [(''b'', VInt 1), (''m'', VDict [(''z'', VNone)])])
   \<and> lookup_path
        (prune_loop [(''h'', VDict [(''b'', VInt 1), (''m'', VDict [(''z'', VNone)])])]
           [''h'', ''b''])
        [''h'']
       = Some (VDict (prune_loop [(''b'', VInt 1), (''m'', VDict [(''z'', VNone)])] [''b'']))
   \<and> lookup_path [(''h'', VDict [(''b'', VInt 1), (''m'', VDict [(''z'', VNone)])])]
        [''h'', ''b'']
       = Some (VInt 1)
   \<and> lookup_path
        (prune_loop [(''h'', VDict [(''b'', VInt 1), (''m'', VDict [(''z'', VNone)])])]
           [''h'', ''b''])
        [''h'', ''b'']
       = None
   \<and> \<not> is_dict (VInt 1)"
proof -
  have path: "split ''.'' ''h.b'' = Inr [''h'', ''b'']" by (simp add: split_def)
  from mappings_are_never_deleted [OF path] path show ?thesis by simp
qed

text \<open>
  C8. When every segment of the key path, the final one included, resolves in the
  document to a nested mapping, the pruner leaves the whole document as it was: every
  binding at every level, the siblings under the path too.
\<close>

theorem prune_mapping_path_unchanged:
  assumes "split sep key = Inr P" and "all_mappings D P"
  shows "process_delete_internal sep (VDict D) key = Inr (VDict D)"
  using assms by (simp add: process_delete_internal_def prune_loop_all_mappings)

theorem prune_mapping_path_unchanged_witness:
  "split ''.'' ''a.b'' = Inr [''a'', ''b'']
   \<and> all_mappings
        [(''a'', VDict [(''b'', VDict [(''c'', VStr ''x'')]), (''s'', VInt 1)]), (''t'', VNone)]
        [''a'', ''b'']
   \<and> process_delete_internal ''.''
        (VDict [(''a'', VDict [(''b'', VDict [(''c'', VStr ''x'')]), (''s'', VInt 1)]),
                (''t'', VNone)]) ''a.b''
       = Inr (VDict [(''a'', VDict [(''b'', VDict [(''c'', VStr ''x'')]), (''s'', VInt 1)]),
                     (''t'', VNone)])"
proof -
  have path: "split ''.'' ''a.b'' = Inr [''a'', ''b'']"
    by (simp add: split_def)
  have maps: "all_mappings
        [(''a'', VDict [(''b'', VDict [(''c'', VStr ''x'')]), (''s'', VInt 1)]), (''t'', VNone)]
        [''a'', ''b'']"
    by simp
  from prune_mapping_path_unchanged [OF path maps] path maps show ?thesis by simp
qed

section \<open>The hook PUT\<close>

text \<open>
  C5. For a non-empty hook key that splits into the segments \<open>s\<^sub>0, \<dots>, s\<^sub>n\<close> and a
  hook content string \<open>V\<close>, \<^verbatim>\<open>process_put\<close> sends nothing and returns the mapping that
  binds the reserved key to \<open>{s\<^sub>0: {s\<^sub>1: {\<dots> {s\<^sub>n: V}}}}\<close>.
\<close>

theorem hook_put_builds_nested_path:
  assumes "convert payload = Inr request_data"
    and "map_of request_data ''hook_content'' = Some (VStr V)"
    and "py_get request ''key'' = Inr (VStr key)"
    and "key \<noteq> []"
    and "split sep key = Inr segments"
  shows "hook_process_put sep hooks convert request payload s
           = Inr (Some [(hooks, right_nested segments (VStr V))], s)"
  using assms unfolding hook_process_put_def
  by (simp add: build_path_right_nested)

theorem hook_put_builds_nested_path_witness:
  "example_convert (VDict [(''hook_content'', VStr ''<p>hi</p>'')])
     = Inr [(''hook_content'', VStr ''<p>hi</p>'')]
   \<and> map_of [(''hook_content'', VStr ''<p>hi</p>'')] ''hook_content'' = Some (VStr ''<p>hi</p>'')
   \<and> py_get (VDict [(''key'', VStr ''a.b.c'')]) ''key'' = Inr (VStr ''a.b.c'')
   \<and> ''a.b.c'' \<noteq> []
   \<and> split ''.'' ''a.b.c'' = Inr [''a'', ''b'', ''c'']
   \<and> hook_process_put ''.'' ''html_hooks'' example_convert
        (VDict [(''key'', VStr ''a.b.c'')]) (VDict [(''hook_content'', VStr ''<p>hi</p>'')])
        example_state
       = Inr (Some [(''html_hooks'',
                     VDict [(''a'', VDict [(''b'', VDict [(''c'', VStr ''<p>hi</p>'')])])])],
              example_state)"
proof -
  have conv: "example_convert (VDict [(''hook_content'', VStr ''<p>hi</p>'')])
     = Inr [(''hook_content'', VStr ''<p>hi</p>'')]" by (simp add: example_convert_def)
  have content: "map_of [(''hook_content'', VStr ''<p>hi</p>'')] ''hook_content''
     = Some (VStr ''<p>hi</p>'')" by simp
  have key: "py_get (VDict [(''key'', VStr ''a.b.c'')]) ''key'' = Inr (VStr ''a.b.c'')" by simp
  have nonempty: "''a.b.c'' \<noteq> []" by simp
  have path: "split ''.'' ''a.b.c'' = Inr [''a'', ''b'', ''c'']" by (simp add: split_def)
  from hook_put_builds_nested_path
    [of example_convert "VDict [(''hook_content'', VStr ''<p>hi</p>'')]"
        "[(''hook_content'', VStr ''<p>hi</p>'')]" "''<p>hi</p>''"
        "VDict [(''key'', VStr ''a.b.c'')]" "''a.b.c''" "''.''" "[''a'', ''b'', ''c'']"
        "''html_hooks''" example_state,
     OF conv content key nonempty path]
    conv content key path
  show ?thesis by simp
qed

section \<open>Requests that are turned down\<close>

text \<open>
  C6. On an editable course, a PUT whose parsed request object has no \<^verbatim>\<open>payload\<close>
  field is answered with one response, of status 400, on either handler. A hook PUT that gets through the
  checks before \<^verbatim>\<open>process_put\<close> and whose converted payload has no \<^verbatim>\<open>hook_content\<close>
  is answered with one response, of status 400. In both cases the handler returns before
  any merge or save: the persisted document is the one it was.
\<close>

theorem put_missing_field_400:
  \<open>(is_editable_fs e
      \<and> request_get e ''request'' \<noteq> []
      \<and> loads e (VStr (request_get e ''request'')) = Inr (VDict request_object)
      \<and> map_of request_object ''payload'' = None
     \<longrightarrow> (\<exists>message. put h e s = Inr (s\<lparr>responses := responses s @ [(400, message)]\<rparr>)))
    \<and> (passes_checks HtmlHook e request payload
        \<and> convert_json_to_entity e HtmlHook payload = Inr request_data
        \<and> map_of request_data ''hook_content'' = None
       \<longrightarrow> put HtmlHook e s
             = Inr (s\<lparr>responses :=
                      responses s @ [(400, ''Payload missing "hook_content" parameter.'')]\<rparr>))\<close>
proof -
  have first: "is_editable_fs e
      \<and> request_get e ''request'' \<noteq> []
      \<and> loads e (VStr (request_get e ''request'')) = Inr (VDict request_object)
      \<and> map_of request_object ''payload'' = None
     \<longrightarrow> (\<exists>message. put h e s = Inr (s\<lparr>responses := responses s @ [(400, message)]\<rparr>))"
    using put_no_payload [of e request_object h s] by (simp add: send_json_response_def)
  have second: \<open>passes_checks HtmlHook e request payload
        \<and> convert_json_to_entity e HtmlHook payload = Inr request_data
        \<and> map_of request_data ''hook_content'' = None
       \<longrightarrow> put HtmlHook e s
             = Inr (s\<lparr>responses :=
                      responses s @ [(400, ''Payload missing "hook_content" parameter.'')]\<rparr>)\<close>
  proof (intro impI, elim conjE)
    assume checks: "passes_checks HtmlHook e request payload"
      and conv: "convert_json_to_entity e HtmlHook payload = Inr request_data"
      and missing: "map_of request_data ''hook_content'' = None"
    from hook_put_no_content [of "convert_json_to_entity e HtmlHook", OF conv missing]
    have \<open>process_put HtmlHook e request payload s
            = Inr (None, send_json_response 400 ''Payload missing "hook_content" parameter.'' s)\<close>
      by simp
    from put_rejected [OF checks this] show
      \<open>put HtmlHook e s
         = Inr (s\<lparr>responses :=
                  responses s @ [(400, ''Payload missing "hook_content" parameter.'')]\<rparr>)\<close>
      by (simp add: send_json_response_def)
  qed
  from first second show ?thesis by blast
qed

theorem put_missing_field_400_witness:
  \<open>is_editable_fs (example_env\<lparr>loads := (\<lambda>v. Inr (VDict [(''key'', VStr ''a.b'')]))\<rparr>)
    \<and> request_get (example_env\<lparr>loads := (\<lambda>v. Inr (VDict [(''key'', VStr ''a.b'')]))\<rparr>) ''request''
      \<noteq> []
    \<and> loads (example_env\<lparr>loads := (\<lambda>v. Inr (VDict [(''key'', VStr ''a.b'')]))\<rparr>)
        (VStr (request_get (example_env\<lparr>loads := (\<lambda>v. Inr (VDict [(''key'', VStr ''a.b'')]))\<rparr>)
                 ''request''))
       = Inr (VDict [(''key'', VStr ''a.b'')])
    \<and> map_of [(''key'', VStr ''a.b'')] ''payload'' = None
    \<and> put CourseSettings (example_env\<lparr>loads := (\<lambda>v. Inr (VDict [(''key'', VStr ''a.b'')]))\<rparr>)
         example_state
       = Inr (example_state\<lparr>responses := [(400, ''Request missing "payload" parameter.'')]\<rparr>)
    \<and> passes_checks HtmlHook example_env
         (VDict [(''key'', VStr ''a.b''), (''payload'', VStr ''p'')]) (VDict [])
    \<and> convert_json_to_entity example_env HtmlHook (VDict []) = Inr []
    \<and> map_of ([] :: dict) ''hook_content'' = None
    \<and> put HtmlHook example_env example_state
       = Inr (example_state\<lparr>responses :=
                [(400, ''Payload missing "hook_content" parameter.'')]\<rparr>)\<close>
proof -
  have checks: "passes_checks HtmlHook example_env
         (VDict [(''key'', VStr ''a.b''), (''payload'', VStr ''p'')]) (VDict [])"
    by (simp add: passes_checks_def example_env_def request_get_def)
  have conv: "convert_json_to_entity example_env HtmlHook (VDict []) = Inr []"
    by (simp add: example_env_def)
  have first: \<open>put CourseSettings
         (example_env\<lparr>loads := (\<lambda>v. Inr (VDict [(''key'', VStr ''a.b'')]))\<rparr>) example_state
       = Inr (example_state\<lparr>responses := [(400, ''Request missing "payload" parameter.'')]\<rparr>)\<close>
    by (simp add: put_def example_env_def example_state_def request_get_def
          send_json_response_def)
  from put_missing_field_400
    [where e = example_env and s = example_state and payload = "VDict []"
       and request = "VDict [(''key'', VStr ''a.b''), (''payload'', VStr ''p'')]"
       and request_data = "[]"]
    put_missing_field_400
    [where e = "example_env\<lparr>loads := (\<lambda>v. Inr (VDict [(''key'', VStr ''a.b'')]))\<rparr>"
       and s = example_state and h = CourseSettings
       and request_object = "[(''key'', VStr ''a.b'')]"]
    checks conv first
  show ?thesis by (simp add: example_env_def example_state_def request_get_def)
qed

text \<open>
  C6, a hook PUT without \<^verbatim>\<open>hook_content\<close> from a user who may not edit: the
  permission check comes before \<^verbatim>\<open>process_put\<close>, and the answer is 401.
\<close>

theorem hook_put_without_permission_counterexample:
  \<open>is_editable_fs (example_env\<lparr>can_edit := False\<rparr>)
    \<and> convert_json_to_entity (example_env\<lparr>can_edit := False\<rparr>) HtmlHook (VDict []) = Inr []
    \<and> map_of ([] :: dict) ''hook_content'' = None
    \<and> put HtmlHook (example_env\<lparr>can_edit := False\<rparr>) example_state
       = Inr (example_state\<lparr>responses := [(401, ''Access denied.'')]\<rparr>)\<close>
  by (simp add: put_def example_env_def example_state_def request_get_def send_json_response_def)

text \<open>
  C7. A course settings PUT that gets through the checks before \<^verbatim>\<open>process_put\<close>
  (the first of them asserts that the course is editable) and whose converted payload fails the schema validation is answered with one response,
  of status 400 and with the errors in its message; nothing is merged or saved, and the
  persisted document is the one it was.
\<close>

theorem settings_put_invalid_400:
  assumes "passes_checks CourseSettings e request payload"
    and "convert_json_to_entity e CourseSettings payload = Inr request_data"
    and "validate e request_data \<noteq> []"
  shows "put CourseSettings e s
           = Inr (s\<lparr>responses := responses s @
                    [(400, ''Invalid data: '' @ [CHR 0x0A]
                             @ join [CHR 0x0A] (validate e request_data))]\<rparr>)"
proof -
  from settings_put_invalid [of "convert_json_to_entity e CourseSettings", OF assms(2),
      of "validate e", OF assms(3)]
  have "process_put CourseSettings e request payload s
          = Inr (None, send_json_response 400
              (''Invalid data: '' @ [CHR 0x0A] @ join [CHR 0x0A] (validate e request_data)) s)"
    by simp
  from put_rejected [OF assms(1) this] show ?thesis
    by (simp add: send_json_response_def)
qed

theorem settings_put_invalid_400_witness:
  "passes_checks CourseSettings example_env
     (VDict [(''key'', VStr ''a.b''), (''payload'', VStr ''p'')]) (VDict [])
   \<and> convert_json_to_entity example_env CourseSettings (VDict []) = Inr []
   \<and> validate example_env [] \<noteq> []
   \<and> put CourseSettings example_env example_state
      = Inr (example_state\<lparr>responses :=
               [(400, ''Invalid data: '' @ [CHR 0x0A] @ ''title is required'')]\<rparr>)"
proof -
  have checks: "passes_checks CourseSettings example_env
     (VDict [(''key'', VStr ''a.b''), (''payload'', VStr ''p'')]) (VDict [])"
    by (simp add: passes_checks_def example_env_def request_get_def)
  have conv: "convert_json_to_entity example_env CourseSettings (VDict []) = Inr []"
    by (simp add: example_env_def)
  have errors: "validate example_env [] \<noteq> []"
    by (simp add: example_env_def)
  from settings_put_invalid_400 [OF checks conv errors, of example_state] checks conv errors
  show ?thesis by (simp add: example_env_def example_state_def)
qed

text \<open>
  C7, the status of a validation failure: the example request fails the schema
  validation, and the one response has status 400, not 412.
\<close>

theorem settings_put_invalid_counterexample:
  "passes_checks CourseSettings example_env
     (VDict [(''key'', VStr ''a.b''), (''payload'', VStr ''p'')]) (VDict [])
   \<and> validate example_env [] \<noteq> []
   \<and> put CourseSettings example_env example_state
      = Inr (example_state\<lparr>responses :=
               [(400, ''Invalid data: '' @ [CHR 0x0A] @ ''title is required'')]\<rparr>)
   \<and> map fst [(400 :: nat, ''Invalid data: '' @ [CHR 0x0A] @ ''title is required'')] \<noteq> [412]"
  by (simp add: passes_checks_def put_def settings_process_put_def example_env_def
        example_state_def request_get_def send_json_response_def)

text \<open>
  C9. A DELETE on the course settings handler never writes the settings document,
  whatever the token and the edit permission are. When the token check passes, the one
  response is 401 \<^verbatim>\<open>Access denied.\<close>, with or without the edit permission. When the
  token check fails, the handler returns at once and the only responses are those the
  token check sent.
\<close>

theorem settings_delete_never_writes:
  "(assert_xsrf_token_or_fail e (query_dict e) (XSRF_ACTION CourseSettings) = TokenOk
      \<longrightarrow> delete CourseSettings e s
            = Inr (s\<lparr>responses := responses s @ [(401, ''Access denied.'')]\<rparr>))
   \<and> (\<forall>sent. assert_xsrf_token_or_fail e (query_dict e) (XSRF_ACTION CourseSettings)
               = TokenFail sent
         \<longrightarrow> delete CourseSettings e s = Inr (s\<lparr>responses := responses s @ sent\<rparr>))
   \<and> (\<exists>s'. delete CourseSettings e s = Inr s' \<and> document s' = document s)"
  by (cases "assert_xsrf_token_or_fail e (query_dict e) (XSRF_ACTION CourseSettings)")
     (simp_all add: delete_settings)

theorem settings_delete_never_writes_witness:
  "assert_xsrf_token_or_fail example_env (query_dict example_env) (XSRF_ACTION CourseSettings)
     = TokenOk
   \<and> delete CourseSettings example_env example_state
       = Inr (example_state\<lparr>responses := [(401, ''Access denied.'')]\<rparr>)
   \<and> assert_xsrf_token_or_fail
        (example_env\<lparr>assert_xsrf_token_or_fail :=
           (\<lambda>token_dict action. TokenFail [(403, ''Bad XSRF token.'')])\<rparr>)
        (query_dict (example_env\<lparr>assert_xsrf_token_or_fail :=
           (\<lambda>token_dict action. TokenFail [(403, ''Bad XSRF token.'')])\<rparr>))
        (XSRF_ACTION CourseSettings)
      = TokenFail [(403, ''Bad XSRF token.'')]
   \<and> delete CourseSettings
        (example_env\<lparr>assert_xsrf_token_or_fail :=
           (\<lambda>token_dict action. TokenFail [(403, ''Bad XSRF token.'')])\<rparr>)
        example_state
       = Inr (example_state\<lparr>responses := [(403, ''Bad XSRF token.'')]\<rparr>)"
proof -
  have ok: "assert_xsrf_token_or_fail example_env (query_dict example_env)
      (XSRF_ACTION CourseSettings) = TokenOk"
    by (simp add: example_env_def)
  from settings_delete_never_writes [of example_env example_state]
    settings_delete_never_writes
      [of "example_env\<lparr>assert_xsrf_token_or_fail :=
             (\<lambda>token_dict action. TokenFail [(403, ''Bad XSRF token.'')])\<rparr>" example_state]
    ok
  show ?thesis by (simp add: example_state_def)
qed

text \<open>
  C9, a DELETE with a bad token: the handler returns before it asks whether deletion
  is allowed, and no 401 is sent.
\<close>

theorem settings_delete_bad_token_counterexample:
  "delete CourseSettings
     (example_env\<lparr>assert_xsrf_token_or_fail :=
        (\<lambda>token_dict action. TokenFail [(403, ''Bad XSRF token.'')])\<rparr>)
     example_state
    = Inr (example_state\<lparr>responses := [(403, ''Bad XSRF token.'')]\<rparr>)
   \<and> (401, ''Access denied.'') \<notin> set [(403 :: nat, ''Bad XSRF token.'')]"
  by (simp add: delete_def example_state_def)

section \<open>The hook DELETE\<close>




end
